theory Spec2Isabelle
  imports Complex_Main
begin

section \<open>Statistics engine (utils/metrics.ts)\<close>

text \<open>
  JavaScript numbers are modelled as reals. A read outside an array yields
  \<open>undefined\<close>, and arithmetic on it yields \<open>NaN\<close>; both are the value \<open>None\<close> here,
  so a result \<open>Some x\<close> is an ordinary number.
\<close>

definition at_index :: "real list \<Rightarrow> int \<Rightarrow> real option" where
  "at_index xs i = (if 0 \<le> i \<and> i < int (length xs) then Some (xs ! nat i) else None)"

text \<open>
  \<open>percentile_run\<close> is the body of \<open>percentile\<close>. Its second component counts the
  calls of \<open>Array.prototype.sort\<close> that the body makes; \<open>[...values].sort((a, b) => a - b)\<close>
  is the ascending sort of a fresh copy.
\<close>

definition percentile_run :: "real list \<Rightarrow> real \<Rightarrow> real option \<times> nat" where
  "percentile_run values p =
     (if length values = 0 then (Some 0, 0)
      else if length values = 1 then (Some (values ! 0), 0)
      else
        (let sorted = sort values;
             index = (p / 100) * (real (length sorted) - 1);
             lower = \<lfloor>index\<rfloor>;
             upper = \<lceil>index\<rceil>
         in if lower = upper then (at_index sorted lower, 1)
            else
              (let fraction = index - of_int lower
               in (case (at_index sorted lower, at_index sorted upper) of
                     (Some a, Some b) \<Rightarrow> Some (a + fraction * (b - a))
                   | _ \<Rightarrow> None, 1))))"

definition percentile :: "real list \<Rightarrow> real \<Rightarrow> real option" where
  "percentile values p = fst (percentile_run values p)"

definition p50_run :: "real list \<Rightarrow> real option \<times> nat" where
  "p50_run values = percentile_run values 50"

definition p95_run :: "real list \<Rightarrow> real option \<times> nat" where
  "p95_run values = percentile_run values 95"

definition p99_run :: "real list \<Rightarrow> real option \<times> nat" where
  "p99_run values = percentile_run values 99"

definition mean :: "real list \<Rightarrow> real" where
  "mean values =
     (if length values = 0 then 0
      else fold (\<lambda>v sum. sum + v) values 0 / real (length values))"

definition stddev :: "real list \<Rightarrow> real" where
  "stddev values =
     (if length values < 2 then 0
      else
        (let avg = mean values;
             squaredDiffs = map (\<lambda>v. (v - avg) ^ 2) values
         in sqrt (fold (\<lambda>v sum. sum + v) squaredDiffs 0 / (real (length values) - 1))))"

text \<open>\<open>Math.min(...values)\<close> and \<open>Math.max(...values)\<close> on a non-empty argument list.\<close>

fun min_stat :: "real list \<Rightarrow> real" where
  "min_stat [] = 0"
| "min_stat (v # vs) = fold min vs v"

fun max_stat :: "real list \<Rightarrow> real" where
  "max_stat [] = 0"
| "max_stat (v # vs) = fold max vs v"

record stats =
  stats_count :: nat
  stats_min :: real
  stats_max :: real
  stats_mean :: real
  stats_stddev :: real
  stats_p50 :: "real option"
  stats_p95 :: "real option"
  stats_p99 :: "real option"

text \<open>
  \<open>computeStats_run\<close> is the body of \<open>computeStats\<close>, with the sorts of the three
  percentile calls added up; \<open>min\<close>, \<open>max\<close>, \<open>mean\<close> and \<open>stddev\<close> do not sort.
\<close>

definition computeStats_run :: "real list \<Rightarrow> stats \<times> nat" where
  "computeStats_run values =
     (let (q50, n50) = p50_run values;
          (q95, n95) = p95_run values;
          (q99, n99) = p99_run values
      in (\<lparr> stats_count = length values,
            stats_min = min_stat values,
            stats_max = max_stat values,
            stats_mean = mean values,
            stats_stddev = stddev values,
            stats_p50 = q50,
            stats_p95 = q95,
            stats_p99 = q99 \<rparr>, n50 + n95 + n99))"

definition computeStats :: "real list \<Rightarrow> stats" where
  "computeStats values = fst (computeStats_run values)"


section \<open>Results store (utils/results-db.ts)\<close>

datatype database_target = Postgis | Mssql

record benchmark_result =
  runId :: string
  suite :: string
  benchmark :: string
  database :: database_target
  scale :: nat
  iteration :: nat
  queryTimeMs :: real
  rowsReturned :: nat
  queryPlan :: "string option"
  error :: "string option"
  timestamp :: string

record resource_snapshot =
  snapshot_runId :: string
  container :: string
  snapshot_timestamp :: string
  cpuPercent :: real
  memoryUsageMb :: real
  memoryLimitMb :: real
  networkRxBytes :: real
  networkTxBytes :: real

record run_row =
  run_id :: string
  started_at :: string
  finished_at :: "string option"
  config_json :: "string option"

text \<open>
  The three tables of \<open>initSchema\<close>, each in insertion order. A nullable column is an
  option; \<open>run_id\<close> is the primary key of \<open>runs\<close>.
\<close>

record results_db =
  benchmark_results :: "benchmark_result list"
  resource_snapshots :: "resource_snapshot list"
  runs :: "run_row list"

datatype sqlite_error = SQLITE_CONSTRAINT_PRIMARYKEY

definition insertResults :: "benchmark_result list \<Rightarrow> results_db \<Rightarrow> results_db" where
  "insertResults results d = d\<lparr>benchmark_results := benchmark_results d @ results\<rparr>"

definition insertResourceSnapshot :: "resource_snapshot \<Rightarrow> results_db \<Rightarrow> results_db" where
  "insertResourceSnapshot snapshot d = d\<lparr>resource_snapshots := resource_snapshots d @ [snapshot]\<rparr>"

text \<open>\<open>now\<close> is the value of \<open>new Date().toISOString()\<close> at the call.\<close>

definition insertRun :: "string \<Rightarrow> string \<Rightarrow> string \<Rightarrow> results_db \<Rightarrow> sqlite_error + results_db" where
  "insertRun now rid configJson d =
     (if rid \<in> run_id ` set (runs d) then Inl SQLITE_CONSTRAINT_PRIMARYKEY
      else Inr (d\<lparr>runs := runs d @
             [\<lparr>run_id = rid, started_at = now, finished_at = None, config_json = Some configJson\<rparr>]\<rparr>))"

text \<open>\<open>UPDATE runs SET finished_at = ? WHERE run_id = ?\<close>: every matching row is rewritten.\<close>

definition finishRun :: "string \<Rightarrow> string \<Rightarrow> results_db \<Rightarrow> sqlite_error + results_db" where
  "finishRun now rid d =
     Inr (d\<lparr>runs := map (\<lambda>r. if run_id r = rid then r\<lparr>finished_at := Some now\<rparr> else r) (runs d)\<rparr>)"

definition getResultsByRun :: "results_db \<Rightarrow> string \<Rightarrow> benchmark_result list" where
  "getResultsByRun d rid = filter (\<lambda>r. runId r = rid) (benchmark_results d)"

text \<open>
  A row of \<open>getStatsForRun\<close>: the four grouping columns and the spread \<open>...stats\<close>, kept
  here as one nested field.
\<close>

record benchmark_stats =
  group_suite :: string
  group_benchmark :: string
  group_database :: database_target
  group_scale :: nat
  group_stats :: stats

type_synonym group_key = "string \<times> string \<times> database_target \<times> nat"

definition group_of :: "benchmark_result \<Rightarrow> group_key" where
  "group_of r = (suite r, benchmark r, database r, scale r)"

text \<open>
  The first query selects the distinct groups among \<^emph>\<open>all\<close> rows of the run; the second,
  run once per group, selects the times of the group's rows whose \<open>error\<close> is \<open>NULL\<close>.
\<close>

definition group_times :: "results_db \<Rightarrow> string \<Rightarrow> group_key \<Rightarrow> real list" where
  "group_times d rid g =
     map queryTimeMs
       (filter (\<lambda>r. runId r = rid \<and> suite r = fst g \<and> benchmark r = fst (snd g)
                    \<and> database r = fst (snd (snd g)) \<and> scale r = snd (snd (snd g))
                    \<and> error r = None)
          (benchmark_results d))"

definition getStatsForRun :: "results_db \<Rightarrow> string \<Rightarrow> benchmark_stats list" where
  "getStatsForRun d rid =
     (let groups = remdups (map group_of (filter (\<lambda>r. runId r = rid) (benchmark_results d)))
      in map (\<lambda>g.
            (let times = group_times d rid g;
                 stats = computeStats times
             in \<lparr> group_suite = fst g,
                  group_benchmark = fst (snd g),
                  group_database = fst (snd (snd g)),
                  group_scale = snd (snd (snd g)),
                  group_stats = stats \<rparr>)) groups)"

section \<open>Case executor (utils/query-runner.ts)\<close>

text \<open>
  A thrown JavaScript value, as far as the \<open>catch\<close> clause looks at it: \<open>message\<close> is
  \<open>err?.message\<close> (\<open>None\<close> when \<open>err\<close> or its \<open>message\<close> is \<open>null\<close> or \<open>undefined\<close>),
  \<open>as_string\<close> is \<open>String(err)\<close>.
\<close>

datatype thrown = Thrown (message: "string option") (as_string: string)

text \<open>\<open>err?.message ?? String(err)\<close>\<close>

definition error_text :: "thrown \<Rightarrow> string" where
  "error_text e = (case message e of Some m \<Rightarrow> m | None \<Rightarrow> as_string e)"

text \<open>
  The object that a fulfilled \<open>fn\<close> hands back, as the outcome of reading each of the
  two properties that the executor reads. A read throws (\<open>Inl\<close>) when the object is
  \<open>null\<close> or \<open>undefined\<close>, or when the property is an accessor that throws.
\<close>

record case_output =
  output_rowsReturned :: "thrown + nat"
  output_queryPlan :: "thrown + string option"

text \<open>
  The \<open>try\<close>/\<open>catch\<close> of one timed iteration, statement by statement: the values of
  \<open>rowsReturned\<close>, \<open>queryPlan\<close> and \<open>error\<close> after it. \<open>rowsReturned\<close> starts at 0 and is
  assigned before \<open>result.queryPlan\<close> is read; the \<open>catch\<close> clause assigns \<open>error\<close> only.
\<close>

definition try_block :: "thrown + case_output \<Rightarrow> nat \<times> string option \<times> string option" where
  "try_block outcome =
     (case outcome of
        Inl e \<Rightarrow> (0, None, Some (error_text e))
      | Inr result \<Rightarrow>
          (case output_rowsReturned result of
             Inl e \<Rightarrow> (0, None, Some (error_text e))
           | Inr n \<Rightarrow>
               (case output_queryPlan result of
                  Inl e \<Rightarrow> (n, None, Some (error_text e))
                | Inr plan \<Rightarrow> (n, plan, None))))"

text \<open>
  The operation \<open>fn\<close> is effectful, so it is given as the outcome of each of its
  invocations, numbered from 0 over the whole run of the case. The context argument is
  the same at every invocation and is part of \<open>fn\<close>.
\<close>

record benchmark_case =
  name :: string
  fn :: "nat \<Rightarrow> thrown + case_output"

record query_runner_options =
  options_runId :: string
  options_suite :: string
  options_database :: database_target
  options_scale :: nat
  iterations :: nat
  warmupIterations :: nat

text \<open>The clocks read by the executor, by number of the read.\<close>

record clocks =
  performance_now :: "nat \<Rightarrow> real"
  date_toISOString :: "nat \<Rightarrow> string"

record world =
  calls :: nat
  performance_reads :: nat
  date_reads :: nat

function warmup_loop :: "benchmark_case \<Rightarrow> query_runner_options \<Rightarrow> nat \<Rightarrow> world \<Rightarrow> world" where
  "warmup_loop benchCase opts i w =
     (if i < warmupIterations opts then
        (case fn benchCase (calls w) of
           Inr _ \<Rightarrow> warmup_loop benchCase opts (i + 1) (w\<lparr>calls := calls w + 1\<rparr>)
         | Inl _ \<Rightarrow> warmup_loop benchCase opts (i + 1) (w\<lparr>calls := calls w + 1\<rparr>))
      else w)"
  by pat_completeness auto
termination
  by (relation "measure (\<lambda>(benchCase, opts, i, w). warmupIterations opts - i)") auto

function timed_loop ::
  "benchmark_case \<Rightarrow> clocks \<Rightarrow> query_runner_options \<Rightarrow> nat \<Rightarrow> benchmark_result list \<Rightarrow> world
     \<Rightarrow> benchmark_result list \<times> world" where
  "timed_loop benchCase ck opts i results w =
     (if i < iterations opts then
        (let start = performance_now ck (performance_reads w);
             w1 = w\<lparr>performance_reads := performance_reads w + 1\<rparr>;
             (rows, plan, err) = try_block (fn benchCase (calls w1));
             w2 = w1\<lparr>calls := calls w1 + 1\<rparr>;
             elapsed = performance_now ck (performance_reads w2) - start;
             w3 = w2\<lparr>performance_reads := performance_reads w2 + 1\<rparr>;
             stamp = date_toISOString ck (date_reads w3);
             w4 = w3\<lparr>date_reads := date_reads w3 + 1\<rparr>
         in timed_loop benchCase ck opts (i + 1)
              (results @
                 [\<lparr> runId = options_runId opts,
                    suite = options_suite opts,
                    benchmark = name benchCase,
                    database = options_database opts,
                    scale = options_scale opts,
                    iteration = i + 1,
                    queryTimeMs = elapsed,
                    rowsReturned = rows,
                    queryPlan = plan,
                    error = err,
                    timestamp = stamp \<rparr>]) w4)
      else (results, w))"
  by pat_completeness auto
termination
  by (relation "measure (\<lambda>(benchCase, ck, opts, i, results, w). iterations opts - i)") auto

text \<open>
  \<open>runBenchmarkCase\<close> awaits \<open>fn\<close> only inside \<open>try\<close> blocks; its result is the value its
  promise settles with, \<open>Inl\<close> for a rejection.
\<close>

definition runBenchmarkCase ::
  "benchmark_case \<Rightarrow> clocks \<Rightarrow> query_runner_options \<Rightarrow> world
     \<Rightarrow> (thrown + benchmark_result list) \<times> world" where
  "runBenchmarkCase benchCase ck opts w =
     (let w1 = warmup_loop benchCase opts 0 w;
          (results, w2) = timed_loop benchCase ck opts 0 [] w1
      in (Inr results, w2))"

section \<open>Workload drivers (suites/concurrent.ts, suites/mixed-workload.ts)\<close>

text \<open>
  Each driver builds one task per slot, hands all of them to \<open>p-limit\<close> and awaits
  \<open>Promise.all\<close> of the task promises. A task that completes adds its row count to
  \<open>totalRows\<close>; a task whose query throws has no handler, so its promise rejects, and the
  first rejection rejects the awaited \<open>Promise.all\<close>: the driver then throws and never
  reaches \<open>return totalRows\<close>.

  \<open>settle_all task order totalRows\<close> follows the tasks in the order in which they
  settle. The concurrency limit decides which orders can occur; the model takes the
  order as an argument.
\<close>

fun settle_all :: "(nat \<Rightarrow> thrown + nat) \<Rightarrow> nat list \<Rightarrow> nat \<Rightarrow> thrown + nat" where
  "settle_all task [] totalRows = Inr totalRows"
| "settle_all task (i # order) totalRows =
     (case task i of
        Inl e \<Rightarrow> Inl e
      | Inr rows \<Rightarrow> settle_all task order (totalRows + rows))"

record pg_result =
  rowCount :: "nat option"

record mssql_result =
  rowsAffected :: "nat list"
  recordset_length :: nat

text \<open>The query of slot \<open>i\<close> of \<open>runConcurrentPostgis\<close>, and the row count it adds.\<close>

definition concurrent_task :: "(nat \<Rightarrow> thrown + pg_result) \<Rightarrow> nat \<Rightarrow> thrown + nat" where
  "concurrent_task pg_query i =
     (case pg_query i of
        Inl e \<Rightarrow> Inl e
      | Inr res \<Rightarrow> Inr (case rowCount res of Some n \<Rightarrow> n | None \<Rightarrow> 0))"

definition runConcurrentPostgis ::
  "(nat \<Rightarrow> thrown + pg_result) \<Rightarrow> nat list \<Rightarrow> nat \<Rightarrow> nat \<Rightarrow> thrown + nat" where
  "runConcurrentPostgis pg_query order totalQueries concurrency =
     settle_all (concurrent_task pg_query) (filter (\<lambda>i. i < totalQueries) order) 0"

datatype op_kind = Write | Read

text \<open>
  \<open>const ops = Array.from({ length: totalOps }, () => Math.random() < writeRatio ? 'write' : 'read')\<close>,
  with \<open>random i\<close> the value that \<open>Math.random()\<close> returns for slot \<open>i\<close>.
\<close>

definition mixed_ops :: "(nat \<Rightarrow> real) \<Rightarrow> nat \<Rightarrow> real \<Rightarrow> op_kind list" where
  "mixed_ops random totalOps writeRatio =
     map (\<lambda>i. if random i < writeRatio then Write else Read) [0..<totalOps]"

text \<open>The two connection pools, as the outcome of the query of each kind in each slot.\<close>

record pools =
  pg_query :: "op_kind \<Rightarrow> nat \<Rightarrow> thrown + pg_result"
  mssql_query :: "op_kind \<Rightarrow> nat \<Rightarrow> thrown + mssql_result"

definition mixed_task :: "pools \<Rightarrow> database_target \<Rightarrow> op_kind \<Rightarrow> nat \<Rightarrow> thrown + nat" where
  "mixed_task ctx db op i =
     (if op = Write then
        (if db = Postgis then
           (case pg_query ctx Write i of
              Inl e \<Rightarrow> Inl e
            | Inr res \<Rightarrow> Inr (case rowCount res of Some n \<Rightarrow> n | None \<Rightarrow> 0))
         else
           (case mssql_query ctx Write i of
              Inl e \<Rightarrow> Inl e
            | Inr res \<Rightarrow> Inr (case rowsAffected res of n # _ \<Rightarrow> n | [] \<Rightarrow> 0)))
      else
        (if db = Postgis then
           (case pg_query ctx Read i of
              Inl e \<Rightarrow> Inl e
            | Inr res \<Rightarrow> Inr (case rowCount res of Some n \<Rightarrow> n | None \<Rightarrow> 0))
         else
           (case mssql_query ctx Read i of
              Inl e \<Rightarrow> Inl e
            | Inr res \<Rightarrow> Inr (recordset_length res))))"

definition mixedWorkload ::
  "pools \<Rightarrow> database_target \<Rightarrow> (nat \<Rightarrow> real) \<Rightarrow> nat list \<Rightarrow> nat \<Rightarrow> real \<Rightarrow> nat
     \<Rightarrow> thrown + nat" where
  "mixedWorkload ctx db random order totalOps writeRatio concurrency =
     (let ops = mixed_ops random totalOps writeRatio
      in settle_all (\<lambda>i. mixed_task ctx db (ops ! i) i) (filter (\<lambda>i. i < totalOps) order) 0)"

section \<open>Resource sampler (utils/docker-stats.ts)\<close>

text \<open>
  What one \<open>docker stats\<close> call for a container gives the body of \<open>poll\<close>: the call (or
  parsing its output, or the insert) throws, the output is empty, or the fields of a
  snapshot are read.
\<close>

datatype docker_reply =
    Unreachable
  | NoOutput
  | Reading string real real real real real

text \<open>
  The collector's \<open>timer\<close> variable, and the part of the runtime it acts on: the
  interval timers that are armed, the next timer handle, the number of polls made, and
  the results database.
\<close>

record collector =
  timer :: "nat option"
  armed :: "nat set"
  next_handle :: nat
  polls :: nat
  store :: results_db

definition createDockerStatsCollector :: "results_db \<Rightarrow> collector" where
  "createDockerStatsCollector d =
     \<lparr> timer = None, armed = {}, next_handle = 0, polls = 0, store = d \<rparr>"

fun poll_each ::
  "(nat \<Rightarrow> string \<Rightarrow> docker_reply) \<Rightarrow> string \<Rightarrow> nat \<Rightarrow> string list \<Rightarrow> results_db \<Rightarrow> results_db" where
  "poll_each docker rid k [] d = d"
| "poll_each docker rid k (c # cs) d =
     (case docker k c of
        Unreachable \<Rightarrow> poll_each docker rid k cs d
      | NoOutput \<Rightarrow> poll_each docker rid k cs d
      | Reading stamp cpu used limit rx tx \<Rightarrow>
          poll_each docker rid k cs
            (insertResourceSnapshot
               \<lparr> snapshot_runId = rid, container = c, snapshot_timestamp = stamp,
                 cpuPercent = cpu, memoryUsageMb = used, memoryLimitMb = limit,
                 networkRxBytes = rx, networkTxBytes = tx \<rparr> d))"

definition poll :: "(nat \<Rightarrow> string \<Rightarrow> docker_reply) \<Rightarrow> string \<Rightarrow> string list \<Rightarrow> collector \<Rightarrow> collector" where
  "poll docker rid containers s =
     s\<lparr> store := poll_each docker rid (polls s) containers (store s), polls := polls s + 1 \<rparr>"

definition start :: "(nat \<Rightarrow> string \<Rightarrow> docker_reply) \<Rightarrow> string \<Rightarrow> string list \<Rightarrow> collector \<Rightarrow> collector" where
  "start docker rid containers s =
     (let s1 = poll docker rid containers s;
          h = next_handle s1
      in s1\<lparr> armed := insert h (armed s1), next_handle := h + 1, timer := Some h \<rparr>)"

definition stop :: "collector \<Rightarrow> collector" where
  "stop s =
     (case timer s of
        Some h \<Rightarrow> s\<lparr> armed := armed s - {h}, timer := None \<rparr>
      | None \<Rightarrow> s)"

text \<open>The interval with handle \<open>h\<close> comes due: its callback \<open>poll\<close> runs if it is still armed.\<close>

definition tick :: "(nat \<Rightarrow> string \<Rightarrow> docker_reply) \<Rightarrow> string \<Rightarrow> string list \<Rightarrow> nat \<Rightarrow> collector \<Rightarrow> collector" where
  "tick docker rid containers h s = (if h \<in> armed s then poll docker rid containers s else s)"

section \<open>Vocabulary of the properties\<close>

text \<open>The statistics of an empty sample: every field is zero.\<close>

definition zero_stats :: stats where
  "zero_stats = \<lparr> stats_count = 0, stats_min = 0, stats_max = 0, stats_mean = 0, stats_stddev = 0,
                  stats_p50 = Some 0, stats_p95 = Some 0, stats_p99 = Some 0 \<rparr>"

text \<open>The group that a row of \<open>getStatsForRun\<close> stands for.\<close>

definition stats_group :: "benchmark_stats \<Rightarrow> group_key" where
  "stats_group s = (group_suite s, group_benchmark s, group_database s, group_scale s)"

text \<open>
  The world after \<open>k\<close> more timed iterations: each invokes the operation once, reads
  the monotonic clock twice and the date once.
\<close>

definition advance :: "world \<Rightarrow> nat \<Rightarrow> world" where
  "advance w k = w\<lparr> calls := calls w + k,
                    performance_reads := performance_reads w + 2 * k,
                    date_reads := date_reads w + k \<rparr>"

text \<open>The record that the timed iteration with loop index \<open>i\<close> pushes when it starts in world \<open>w\<close>.\<close>

definition iteration_record ::
  "benchmark_case \<Rightarrow> clocks \<Rightarrow> query_runner_options \<Rightarrow> world \<Rightarrow> nat \<Rightarrow> benchmark_result" where
  "iteration_record benchCase ck opts w i =
     \<lparr> runId = options_runId opts,
       suite = options_suite opts,
       benchmark = name benchCase,
       database = options_database opts,
       scale = options_scale opts,
       iteration = i + 1,
       queryTimeMs = performance_now ck (performance_reads w + 1) - performance_now ck (performance_reads w),
       rowsReturned = fst (try_block (fn benchCase (calls w))),
       queryPlan = fst (snd (try_block (fn benchCase (calls w)))),
       error = snd (snd (try_block (fn benchCase (calls w)))),
       timestamp = date_toISOString ck (date_reads w) \<rparr>"

text \<open>A container is reachable at poll \<open>k\<close> when its \<open>docker stats\<close> call yields a reading.\<close>

definition reachable :: "(nat \<Rightarrow> string \<Rightarrow> docker_reply) \<Rightarrow> nat \<Rightarrow> string \<Rightarrow> bool" where
  "reachable docker k c =
     (case docker k c of Reading stamp cpu used limit rx tx \<Rightarrow> True | _ \<Rightarrow> False)"

section \<open>Example inputs\<close>

definition failed_measurement :: benchmark_result where
  "failed_measurement =
     \<lparr> runId = ''run-1'', suite = ''bbox'', benchmark = ''bbox-amsterdam'', database = Postgis,
       scale = 5000, iteration = 1, queryTimeMs = 12, rowsReturned = 0, queryPlan = None,
       error = Some ''connection refused'', timestamp = ''2024-01-01T00:00:00.000Z'' \<rparr>"

text \<open>A run whose only measurement failed.\<close>

definition failed_run_db :: results_db where
  "failed_run_db =
     \<lparr> benchmark_results = [failed_measurement], resource_snapshots = [], runs = [] \<rparr>"

text \<open>A database that knows the run \<open>run-1\<close> and no other.\<close>

definition one_run_db :: results_db where
  "one_run_db =
     \<lparr> benchmark_results = [], resource_snapshots = [],
       runs = [\<lparr> run_id = ''run-1'', started_at = ''2024-01-01T00:00:00.000Z'',
                 finished_at = None, config_json = Some ''{}'' \<rparr>] \<rparr>"

definition empty_db :: results_db where
  "empty_db = \<lparr> benchmark_results = [], resource_snapshots = [], runs = [] \<rparr>"

text \<open>Two warmup and three timed iterations, a clock that advances by one per read.\<close>

definition example_options :: query_runner_options where
  "example_options =
     \<lparr> options_runId = ''run-1'', options_suite = ''bbox'', options_database = Postgis,
       options_scale = 5000, iterations = 3, warmupIterations = 2 \<rparr>"

definition unit_clocks :: clocks where
  "unit_clocks =
     \<lparr> performance_now = (\<lambda>k. real k), date_toISOString = (\<lambda>k. ''2024-01-01T00:00:00.000Z'') \<rparr>"

definition idle_world :: world where
  "idle_world = \<lparr> calls = 0, performance_reads = 0, date_reads = 0 \<rparr>"

text \<open>An operation that always returns seven rows.\<close>

definition steady_case :: benchmark_case where
  "steady_case =
     \<lparr> name = ''bbox-amsterdam'',
       fn = (\<lambda>k. Inr \<lparr> output_rowsReturned = Inr 7, output_queryPlan = Inr None \<rparr>) \<rparr>"

text \<open>
  An operation that always throws \<open>new Error()\<close>: the message of such an error is the
  empty string, and its string form is \<open>Error\<close>.
\<close>

definition silent_case :: benchmark_case where
  "silent_case = \<lparr> name = ''bbox-amsterdam'', fn = (\<lambda>k. Inl (Thrown (Some []) ''Error'')) \<rparr>"

text \<open>
  An operation that always returns an object with seven rows whose \<open>queryPlan\<close> accessor
  throws \<open>new Error('plan unavailable')\<close>.
\<close>

definition plan_throwing_case :: benchmark_case where
  "plan_throwing_case =
     \<lparr> name = ''bbox-amsterdam'',
       fn = (\<lambda>k. Inr \<lparr> output_rowsReturned = Inr 7,
                        output_queryPlan = Inl (Thrown (Some ''plan unavailable'')
                                                   ''Error: plan unavailable'') \<rparr>) \<rparr>"

text \<open>Three queries of three rows each; in the second variant the query of slot 1 throws.\<close>

definition all_ok_query :: "nat \<Rightarrow> thrown + pg_result" where
  "all_ok_query i = Inr \<lparr> rowCount = Some 3 \<rparr>"

definition one_failure_query :: "nat \<Rightarrow> thrown + pg_result" where
  "one_failure_query i =
     (if i = 1 then Inl (Thrown (Some ''deadlock detected'') ''error: deadlock detected'')
      else Inr \<lparr> rowCount = Some 3 \<rparr>)"

definition example_pools :: "(nat \<Rightarrow> thrown + pg_result) \<Rightarrow> pools" where
  "example_pools q =
     \<lparr> pg_query = (\<lambda>op i. q i),
       mssql_query = (\<lambda>op i. Inr \<lparr> rowsAffected = [1], recordset_length = 1 \<rparr>) \<rparr>"

text \<open>A monitoring facility that reaches the container \<open>geobench-postgis\<close> and no other.\<close>

definition example_docker :: "nat \<Rightarrow> string \<Rightarrow> docker_reply" where
  "example_docker k c =
     (if c = ''geobench-postgis'' then Reading ''2024-01-01T00:00:00.000Z'' 5 256 1024 1000 2000
      else Unreachable)"

section \<open>Properties of the statistics engine\<close>

lemma at_index_nat: "i < length xs \<Longrightarrow> at_index xs (int i) = Some (xs ! i)"
  by (simp add: at_index_def)

lemma rank_bounds:
  fixes p :: real
  assumes "0 \<le> p" "p \<le> 100" "0 < n"
  shows "0 \<le> (p / 100) * (real n - 1)" "(p / 100) * (real n - 1) \<le> real n - 1"
proof -
  have a: "0 \<le> p / 100" "p / 100 \<le> 1" using assms by simp_all
  have b: "0 \<le> real n - 1" using assms by simp
  show "0 \<le> (p / 100) * (real n - 1)" using a b by simp
  show "(p / 100) * (real n - 1) \<le> real n - 1"
    using mult_right_mono[OF a(2) b] by simp
qed

lemma floor_ceiling_in_range:
  fixes x :: real
  assumes "0 \<le> x" "x \<le> real n - 1" "0 < n"
  shows "0 \<le> \<lfloor>x\<rfloor>" "\<lfloor>x\<rfloor> < int n" "0 \<le> \<lceil>x\<rceil>" "\<lceil>x\<rceil> < int n"
proof -
  show "0 \<le> \<lfloor>x\<rfloor>" using assms by simp
  have "\<lfloor>x\<rfloor> \<le> \<lfloor>real n - 1\<rfloor>" using assms(2) by (rule floor_mono)
  also have "\<dots> = int n - 1" by (metis floor_of_int of_int_1 of_int_diff of_int_of_nat_eq)
  finally show "\<lfloor>x\<rfloor> < int n" by simp
  show "0 \<le> \<lceil>x\<rceil>" using assms by (simp add: order_trans[OF _ le_of_int_ceiling])
  have "\<lceil>x\<rceil> \<le> \<lceil>real n - 1\<rceil>" using assms(2) by (rule ceiling_mono)
  also have "\<dots> = int n - 1" by (metis ceiling_of_int of_int_1 of_int_diff of_int_of_nat_eq)
  finally show "\<lceil>x\<rceil> < int n" by simp
qed

lemma percentile_interp:
  assumes "values \<noteq> []" "0 \<le> p" "p \<le> 100"
  defines "n \<equiv> length values"
  defines "srt \<equiv> sort values"
  defines "idx \<equiv> (p / 100) * (real n - 1)"
  defines "lo \<equiv> nat \<lfloor>idx\<rfloor>"
  defines "hi \<equiv> nat \<lceil>idx\<rceil>"
  shows "lo < n \<and> hi < n \<and>
         percentile values p = Some (srt ! lo + (idx - real lo) * (srt ! hi - srt ! lo)) \<and>
         (lo = hi \<longrightarrow> percentile values p = Some (srt ! lo))"
proof -
  have n0: "0 < n" using assms(1) by (simp add: n_def)
  have r: "0 \<le> idx" "idx \<le> real n - 1" unfolding idx_def using rank_bounds[OF assms(2,3) n0] by simp_all
  note fc = floor_ceiling_in_range[OF r n0]
  have lo1: "int lo = \<lfloor>idx\<rfloor>" using fc(1) by (simp add: lo_def)
  have lo2: "lo < n" using fc(1,2) lo1 by linarith
  have hi1: "int hi = \<lceil>idx\<rceil>" using fc(3) by (simp add: hi_def)
  have hi2: "hi < n" using fc(3,4) hi1 by linarith
  note lo = lo1 lo2 and hi = hi1 hi2
  have ls: "length srt = n" by (simp add: srt_def n_def)
  have alo: "at_index srt \<lfloor>idx\<rfloor> = Some (srt ! lo)"
    using at_index_nat[of lo srt] lo ls by simp
  have ahi: "at_index srt \<lceil>idx\<rceil> = Some (srt ! hi)"
    using at_index_nat[of hi srt] hi ls by simp
  have eqlh: "lo = hi \<longleftrightarrow> \<lfloor>idx\<rfloor> = \<lceil>idx\<rceil>" using lo(1) hi(1) by (metis of_nat_eq_iff)
  have rlo: "real lo = of_int \<lfloor>idx\<rfloor>" using lo(1) by (metis of_int_of_nat_eq)
  show ?thesis
  proof (cases "n = 1")
    case True
    then have i0: "idx = 0" by (simp add: idx_def)
    from True obtain v where v: "values = [v]" unfolding n_def by (cases "values") auto
    show ?thesis using True i0 v by (simp add: lo_def hi_def percentile_def percentile_run_def srt_def)
  next
    case False
    then have n2: "length values \<noteq> 0" "length values \<noteq> 1" using n0 by (simp_all add: n_def)
    have pr: "percentile values p =
       (if \<lfloor>idx\<rfloor> = \<lceil>idx\<rceil> then at_index srt \<lfloor>idx\<rfloor>
        else (case (at_index srt \<lfloor>idx\<rfloor>, at_index srt \<lceil>idx\<rceil>) of
               (Some a, Some b) \<Rightarrow> Some (a + (idx - of_int \<lfloor>idx\<rfloor>) * (b - a)) | _ \<Rightarrow> None))"
      using n2 unfolding percentile_def percentile_run_def Let_def srt_def idx_def n_def length_sort by simp
    show ?thesis
    proof (cases "\<lfloor>idx\<rfloor> = \<lceil>idx\<rceil>")
      case True
      then have e: "hi = lo" using eqlh by simp
      have P: "percentile values p = Some (srt ! lo)" using True pr alo by simp
      show ?thesis unfolding e using P lo2 by simp
    next
      case False
      then have "lo \<noteq> hi" using eqlh by simp
      then show ?thesis using False pr alo ahi lo hi rlo by simp
    qed
  qed
qed

lemma percentile_empty: "percentile [] p = Some 0"
  by (simp add: percentile_def percentile_run_def)

lemma percentile_single: "percentile [v] p = Some v"
  by (simp add: percentile_def percentile_run_def)


lemma min_stat_Min: "values \<noteq> [] \<Longrightarrow> min_stat values = Min (set values)"
  by (cases "values") (simp_all add: Min.set_eq_fold[symmetric])

lemma max_stat_Max: "values \<noteq> [] \<Longrightarrow> max_stat values = Max (set values)"
  by (cases "values") (simp_all add: Max.set_eq_fold[symmetric])

lemma sort_first_Min:
  fixes xs :: "real list"
  assumes "xs \<noteq> []"
  shows "sort xs ! 0 = Min (set xs)"
proof (rule sym, rule Min_eqI)
  show "finite (set xs)" by simp
  have len: "0 < length (sort xs)" using assms by simp
  show "sort xs ! 0 \<in> set xs" using nth_mem[OF len] by simp
  fix y assume "y \<in> set xs"
  then have "y \<in> set (sort xs)" by simp
  then obtain i where i: "i < length (sort xs)" "sort xs ! i = y" unfolding in_set_conv_nth by blast
  have "sort xs ! 0 \<le> sort xs ! i" using sorted_nth_mono[OF sorted_sort, of 0 i xs] i(1) by simp
  then show "sort xs ! 0 \<le> y" using i(2) by simp
qed

lemma sort_last_Max:
  fixes xs :: "real list"
  assumes "xs \<noteq> []"
  shows "sort xs ! (length xs - 1) = Max (set xs)"
proof (rule sym, rule Max_eqI)
  show "finite (set xs)" by simp
  have len: "length xs - 1 < length (sort xs)" using assms by simp
  show "sort xs ! (length xs - 1) \<in> set xs" using nth_mem[OF len] by simp
  fix y assume "y \<in> set xs"
  then have "y \<in> set (sort xs)" by simp
  then obtain i where i: "i < length (sort xs)" "sort xs ! i = y" unfolding in_set_conv_nth by blast
  have "sort xs ! i \<le> sort xs ! (length xs - 1)"
    using sorted_nth_mono[OF sorted_sort, of i "length xs - 1" xs] i(1) len by simp
  then show "y \<le> sort xs ! (length xs - 1)" using i(2) by simp
qed

lemma sort_count: "snd (percentile_run values p) = (if length values < 2 then 0 else 1)"
  by (cases "values") (auto simp: percentile_run_def Let_def split: prod.splits)

text \<open>
  C5. \<open>percentile\<close> returns 0 for an empty input and the element itself for a
  single-element input. For a non-empty input of length \<open>n\<close> and \<open>p\<close> between 0 and 100,
  with \<open>srt\<close> the ascending sort of the input, \<open>idx = (p / 100) * (n - 1)\<close>,
  \<open>lo = floor idx\<close> and \<open>hi = ceil idx\<close>, both ranks lie inside the array, the result is
  \<open>srt[lo] + (idx - lo) * (srt[hi] - srt[lo])\<close>, and it is \<open>srt[lo]\<close> when \<open>lo = hi\<close>.
\<close>

theorem percentile_linear_interpolation:
  "percentile [] p = Some 0 \<and> percentile [v] p = Some v \<and>
   (values \<noteq> [] \<and> 0 \<le> p \<and> p \<le> 100 \<longrightarrow>
      (let n = length values;
           srt = sort values;
           idx = (p / 100) * (real n - 1);
           lo = nat \<lfloor>idx\<rfloor>;
           hi = nat \<lceil>idx\<rceil>
       in lo < n \<and> hi < n \<and>
          percentile values p = Some (srt ! lo + (idx - real lo) * (srt ! hi - srt ! lo)) \<and>
          (lo = hi \<longrightarrow> percentile values p = Some (srt ! lo))))"
  using percentile_interp[of "values" p] percentile_empty[of p] percentile_single[of v p]
  unfolding Let_def by blast

text \<open>The median of four samples lies halfway between the two middle ones.\<close>

theorem percentile_linear_interpolation_witness:
  "[40, 10, 30, 20] \<noteq> ([] :: real list) \<and> (0::real) \<le> 50 \<and> (50::real) \<le> 100 \<and>
   percentile [40, 10, 30, 20] 50 = Some 25 \<and>
   percentile [40, 10, 30, 20] 50 = Some (20 + (3 / 2 - 1) * (30 - 20))"
  using percentile_linear_interpolation[of 50 7 "[40, 10, 30, 20]"]
  by (simp add: Let_def)

text \<open>
  C7. For every non-empty sample sequence, the 0th percentile is the minimum and the
  100th percentile is the maximum, as computed by \<open>min\<close> and \<open>max\<close> of the same module.
\<close>

theorem percentile_extremes:
  assumes "values \<noteq> []"
  shows "percentile values 0 = Some (min_stat values) \<and> percentile values 100 = Some (max_stat values)"
proof -
  have n: "0 < length values" using assms by simp
  have lo: "percentile values 0 = Some (sort values ! 0)"
    using percentile_interp[OF assms, of 0] by simp
  have r: "real (length values) - 1 = real (length values - 1)"
    using n by (cases "length values") simp_all
  have hi: "percentile values 100 = Some (sort values ! (length values - 1))"
    using percentile_interp[OF assms, of 100] by (simp add: r)
  show ?thesis
    using lo hi sort_first_Min[OF assms] sort_last_Max[OF assms]
      min_stat_Min[OF assms] max_stat_Max[OF assms]
    by simp
qed

theorem percentile_extremes_witness:
  "[3, 1, 2] \<noteq> ([] :: real list) \<and> percentile [3, 1, 2] 0 = Some 1 \<and> percentile [3, 1, 2] 100 = Some 3"
  using percentile_extremes[of "[3, 1, 2]"] by simp

text \<open>
  C9, as the code has it. \<open>computeStats\<close> bundles count, min, max, mean, stddev and the
  three percentiles, and obtains the percentiles from three separate calls of
  \<open>percentile\<close>, each of which sorts its own copy of the input: three sorts for an input
  of two or more values, and none for a shorter input, where \<open>percentile\<close> returns before
  sorting.
\<close>

theorem computeStats_sorts:
  "(length values < 2 \<longrightarrow> snd (computeStats_run values) = 0) \<and>
   (2 \<le> length values \<longrightarrow> snd (computeStats_run values) = 3) \<and>
   stats_count (computeStats values) = length values \<and>
   stats_min (computeStats values) = min_stat values \<and>
   stats_max (computeStats values) = max_stat values \<and>
   stats_mean (computeStats values) = mean values \<and>
   stats_stddev (computeStats values) = stddev values \<and>
   stats_p50 (computeStats values) = percentile values 50 \<and>
   stats_p95 (computeStats values) = percentile values 95 \<and>
   stats_p99 (computeStats values) = percentile values 99"
  by (simp add: computeStats_def computeStats_run_def p50_run_def p95_run_def p99_run_def
      split_beta sort_count percentile_def)

theorem computeStats_sorts_witness:
  "2 \<le> length [10, 20, 30, 40, 50 :: real] \<and> snd (computeStats_run [10, 20, 30, 40, 50]) = 3 \<and>
   length ([] :: real list) < 2 \<and> snd (computeStats_run []) = 0"
  using computeStats_sorts[of "[10, 20, 30, 40, 50]"] computeStats_sorts[of "[]"] by simp

text \<open>
  C9 as stated asks for a single sort. On the five samples of the specification's own
  example the input is sorted three times.
\<close>

theorem computeStats_single_sort_counterexample:
  "snd (computeStats_run [10, 20, 30, 40, 50]) = 3"
  by (simp add: computeStats_run_def p50_run_def p95_run_def p99_run_def split_beta
      percentile_run_def Let_def)

section \<open>Properties of the results store\<close>

lemma computeStats_Nil: "computeStats [] = zero_stats"
  by (simp add: computeStats_def computeStats_run_def p50_run_def p95_run_def p99_run_def
      percentile_run_def mean_def stddev_def zero_stats_def)

lemma count_computeStats: "stats_count (computeStats xs) = length xs"
  by (simp add: computeStats_def computeStats_run_def split_beta)

lemma group_times_eq:
  "group_times d rid g =
     map queryTimeMs (filter (\<lambda>r. group_of r = g \<and> error r = None) (getResultsByRun d rid))"
proof -
  have "\<And>r. (runId r = rid \<and> suite r = fst g \<and> benchmark r = fst (snd g)
                    \<and> database r = fst (snd (snd g)) \<and> scale r = snd (snd (snd g))
                    \<and> error r = None) = (runId r = rid \<and> group_of r = g \<and> error r = None)"
    by (auto simp: group_of_def)
  then show ?thesis
    by (simp add: group_times_def getResultsByRun_def conj_commute cong: conj_cong)
qed

lemma stats_group_rows:
  "map stats_group (getStatsForRun d rid) = remdups (map group_of (getResultsByRun d rid))"
  by (simp add: getStatsForRun_def getResultsByRun_def Let_def stats_group_def comp_def)

lemma stats_row:
  assumes "s \<in> set (getStatsForRun d rid)"
  shows "group_stats s = computeStats (group_times d rid (stats_group s))"
  using assms by (auto simp: getStatsForRun_def Let_def stats_group_def)

lemma failed_run_stats:
  "getStatsForRun failed_run_db ''run-1'' =
     [\<lparr> group_suite = ''bbox'', group_benchmark = ''bbox-amsterdam'', group_database = Postgis,
        group_scale = 5000, group_stats = zero_stats \<rparr>]"
  by (simp add: getStatsForRun_def failed_run_db_def failed_measurement_def group_of_def
      group_times_def Let_def computeStats_Nil)

text \<open>
  C1, as the code has it. \<open>getStatsForRun\<close> emits exactly one row for every
  {suite, benchmark, database, scale} group that has a measurement record in the run,
  with or without an error. The statistics of a row are \<open>computeStats\<close> of the query
  times of the group's records that carry no error: its count is their number, and a
  group whose records all carry errors is emitted as a row of zero statistics.
\<close>

theorem getStatsForRun_groups:
  "distinct (map stats_group (getStatsForRun d rid)) \<and>
   set (map stats_group (getStatsForRun d rid)) = group_of ` set (getResultsByRun d rid) \<and>
   (\<forall>s \<in> set (getStatsForRun d rid).
      group_stats s =
        computeStats (map queryTimeMs
          (filter (\<lambda>r. group_of r = stats_group s \<and> error r = None) (getResultsByRun d rid))) \<and>
      stats_count (group_stats s) =
        length (filter (\<lambda>r. group_of r = stats_group s \<and> error r = None) (getResultsByRun d rid)) \<and>
      ((\<forall>r \<in> set (getResultsByRun d rid). group_of r = stats_group s \<longrightarrow> error r \<noteq> None)
         \<longrightarrow> group_stats s = zero_stats))"
proof (intro conjI ballI impI)
  show "distinct (map stats_group (getStatsForRun d rid))"
    by (simp add: stats_group_rows)
  show "set (map stats_group (getStatsForRun d rid)) = group_of ` set (getResultsByRun d rid)"
    by (simp add: stats_group_rows)
next
  fix s assume s: "s \<in> set (getStatsForRun d rid)"
  show "group_stats s =
        computeStats (map queryTimeMs
          (filter (\<lambda>r. group_of r = stats_group s \<and> error r = None) (getResultsByRun d rid)))"
    by (simp add: stats_row[OF s] group_times_eq)
  show "stats_count (group_stats s) =
        length (filter (\<lambda>r. group_of r = stats_group s \<and> error r = None) (getResultsByRun d rid))"
    by (simp add: stats_row[OF s] count_computeStats group_times_eq)
  assume "\<forall>r \<in> set (getResultsByRun d rid). group_of r = stats_group s \<longrightarrow> error r \<noteq> None"
  then have "filter (\<lambda>r. group_of r = stats_group s \<and> error r = None) (getResultsByRun d rid) = []"
    by (auto simp: filter_empty_conv)
  then show "group_stats s = zero_stats"
    by (simp add: stats_row[OF s] group_times_eq computeStats_Nil)
qed

text \<open>
  In the run whose only measurement failed, the one group has no error-free record
  and its row is the zero row with count 0.
\<close>

theorem getStatsForRun_groups_witness:
  "getResultsByRun failed_run_db ''run-1'' = [failed_measurement] \<and>
   error failed_measurement = Some ''connection refused'' \<and>
   map stats_group (getStatsForRun failed_run_db ''run-1'') = [group_of failed_measurement] \<and>
   map group_stats (getStatsForRun failed_run_db ''run-1'') = [zero_stats] \<and>
   map (\<lambda>s. stats_count (group_stats s)) (getStatsForRun failed_run_db ''run-1'') = [0]"
  using getStatsForRun_groups[of failed_run_db "''run-1''"] failed_run_stats
  by (simp add: stats_group_def getResultsByRun_def failed_run_db_def
      failed_measurement_def group_of_def computeStats_Nil zero_stats_def)

text \<open>
  C1 as stated omits a group whose records all carry errors. The run whose only
  measurement failed yields a row for that group, with zero statistics.
\<close>

theorem getStatsForRun_omits_failed_group_counterexample:
  "benchmark_results failed_run_db = [failed_measurement] \<and>
   error failed_measurement = Some ''connection refused'' \<and>
   getStatsForRun failed_run_db ''run-1'' =
     [\<lparr> group_suite = ''bbox'', group_benchmark = ''bbox-amsterdam'', group_database = Postgis,
        group_scale = 5000, group_stats = zero_stats \<rparr>]"
  using failed_run_stats by (simp add: failed_run_db_def failed_measurement_def)

text \<open>
  C10. \<open>finishRun\<close> with a run identifier that has no row in \<open>runs\<close> completes without
  error and leaves the database as it was: the update matches no row, no row is
  created and no row changes.
\<close>

theorem finishRun_unknown_run:
  assumes "rid \<notin> run_id ` set (runs d)"
  shows "finishRun now rid d = Inr d \<and> filter (\<lambda>r. run_id r = rid) (runs d) = []"
proof -
  have "map (\<lambda>r. if run_id r = rid then r\<lparr>finished_at := Some now\<rparr> else r) (runs d) = runs d"
    using assms by (intro map_idI) auto
  moreover have "filter (\<lambda>r. run_id r = rid) (runs d) = []"
    using assms by (auto simp: filter_empty_conv)
  ultimately show ?thesis by (simp add: finishRun_def)
qed

theorem finishRun_unknown_run_witness:
  "''run-2'' \<notin> run_id ` set (runs one_run_db) \<and>
   finishRun ''2024-01-01T00:05:00.000Z'' ''run-2'' one_run_db = Inr one_run_db"
  using finishRun_unknown_run[of "''run-2''" one_run_db "''2024-01-01T00:05:00.000Z''"]
  by (simp add: one_run_db_def)

section \<open>Properties of the case executor\<close>

declare warmup_loop.simps [simp del]
declare timed_loop.simps [simp del]

lemma warmup_step:
  "i < warmupIterations opts \<Longrightarrow>
   warmup_loop benchCase opts i w = warmup_loop benchCase opts (i + 1) (w\<lparr>calls := calls w + 1\<rparr>)"
  by (subst warmup_loop.simps) (simp split: sum.splits)

lemma warmup_done: "\<not> i < warmupIterations opts \<Longrightarrow> warmup_loop benchCase opts i w = w"
  by (subst warmup_loop.simps) simp

text \<open>The warmup loop invokes the operation once per warmup iteration and does nothing else.\<close>

lemma warmup_loop_world:
  "warmup_loop benchCase opts i w = w\<lparr>calls := calls w + (warmupIterations opts - i)\<rparr>"
proof (induction "warmupIterations opts - i" arbitrary: i w)
  case 0
  then show ?case by (simp add: warmup_done)
next
  case (Suc n)
  then have lt: "i < warmupIterations opts" and n: "n = warmupIterations opts - (i + 1)"
    by simp_all
  have d: "warmupIterations opts - i = Suc (warmupIterations opts - (i + 1))"
    using lt by simp
  show ?case
    unfolding warmup_step[OF lt] Suc.hyps(1)[OF n] d by simp
qed

lemma timed_step:
  "i < iterations opts \<Longrightarrow>
   timed_loop benchCase ck opts i results w =
   timed_loop benchCase ck opts (i + 1) (results @ [iteration_record benchCase ck opts w i]) (advance w 1)"
  by (subst timed_loop.simps)
     (simp add: Let_def iteration_record_def advance_def split_beta)

lemma timed_done:
  "\<not> i < iterations opts \<Longrightarrow> timed_loop benchCase ck opts i results w = (results, w)"
  by (subst timed_loop.simps) simp

lemma advance_0: "advance w 0 = w"
  by (simp add: advance_def)

lemma advance_advance: "advance (advance w a) b = advance w (a + b)"
  by (simp add: advance_def algebra_simps)

text \<open>The timed loop appends one record per remaining iteration, in order.\<close>

lemma timed_loop_eq:
  "timed_loop benchCase ck opts i results w =
     (results @ map (\<lambda>j. iteration_record benchCase ck opts (advance w (j - i)) j) [i..<iterations opts],
      advance w (iterations opts - i))"
proof (induction "iterations opts - i" arbitrary: i results w)
  case 0
  then show ?case by (simp add: timed_done advance_0)
next
  case (Suc n)
  then have lt: "i < iterations opts" and n: "n = iterations opts - (i + 1)"
    by simp_all
  have u: "[i..<iterations opts] = i # [i + 1..<iterations opts]"
    using lt by (simp add: upt_conv_Cons)
  have m: "map (\<lambda>j. iteration_record benchCase ck opts (advance (advance w 1) (j - (i + 1))) j)
             [i + 1..<iterations opts]
         = map (\<lambda>j. iteration_record benchCase ck opts (advance w (j - i)) j) [i + 1..<iterations opts]"
  proof (rule map_cong[OF refl])
    fix j assume "j \<in> set [i + 1..<iterations opts]"
    then have "1 + (j - (i + 1)) = j - i" by auto
    then show "iteration_record benchCase ck opts (advance (advance w 1) (j - (i + 1))) j
             = iteration_record benchCase ck opts (advance w (j - i)) j"
      by (simp add: advance_advance)
  qed
  have "timed_loop benchCase ck opts i results w =
        timed_loop benchCase ck opts (i + 1) (results @ [iteration_record benchCase ck opts w i]) (advance w 1)"
    by (rule timed_step[OF lt])
  also have "\<dots> =
        ((results @ [iteration_record benchCase ck opts w i]) @
           map (\<lambda>j. iteration_record benchCase ck opts (advance (advance w 1) (j - (i + 1))) j)
             [i + 1..<iterations opts],
         advance (advance w 1) (iterations opts - (i + 1)))"
    by (rule Suc.hyps(1)[OF n])
  also have "\<dots> =
        (results @ map (\<lambda>j. iteration_record benchCase ck opts (advance w (j - i)) j) [i..<iterations opts],
         advance w (iterations opts - i))"
    unfolding m u using lt by (simp add: advance_advance advance_0 Suc_diff_Suc)
  finally show ?case .
qed

lemma runBenchmarkCase_eq:
  "runBenchmarkCase benchCase ck opts w =
     (Inr (map (\<lambda>j. iteration_record benchCase ck opts
                      (advance (w\<lparr>calls := calls w + warmupIterations opts\<rparr>) j) j)
             [0..<iterations opts]),
      advance (w\<lparr>calls := calls w + warmupIterations opts\<rparr>) (iterations opts))"
  by (simp add: runBenchmarkCase_def warmup_loop_world timed_loop_eq Let_def)

lemma iteration_indices:
  "map iteration (map (\<lambda>j. iteration_record benchCase ck opts (f j) j) [0..<n]) = [1..<n + 1]"
proof -
  have "map iteration (map (\<lambda>j. iteration_record benchCase ck opts (f j) j) [0..<n]) = map Suc [0..<n]"
    by (simp add: iteration_record_def comp_def)
  also have "\<dots> = [1..<n + 1]"
    by (simp add: map_Suc_upt)
  finally show ?thesis .
qed

text \<open>
  C3. Whatever the operation does at each invocation, \<open>runBenchmarkCase\<close> fulfils (it
  does not reject), and it returns exactly \<open>iterations\<close> records whose iteration indices
  are 1, 2, ..., \<open>iterations\<close> in order. The warmup invocations are made (the operation
  has been invoked \<open>warmupIterations + iterations\<close> times at the end) and contribute no
  record.
\<close>

theorem runBenchmarkCase_records:
  "\<exists>results.
     fst (runBenchmarkCase benchCase ck opts w) = Inr results \<and>
     length results = iterations opts \<and>
     map iteration results = [1..<iterations opts + 1] \<and>
     calls (snd (runBenchmarkCase benchCase ck opts w)) = calls w + warmupIterations opts + iterations opts"
proof -
  let ?w1 = "w\<lparr>calls := calls w + warmupIterations opts\<rparr>"
  let ?results = "map (\<lambda>j. iteration_record benchCase ck opts (advance ?w1 j) j) [0..<iterations opts]"
  have a: "fst (runBenchmarkCase benchCase ck opts w) = Inr ?results"
    by (simp add: runBenchmarkCase_eq)
  have b: "length ?results = iterations opts"
    by simp
  have c: "map iteration ?results = [1..<iterations opts + 1]"
    by (rule iteration_indices)
  have d: "calls (snd (runBenchmarkCase benchCase ck opts w))
             = calls w + warmupIterations opts + iterations opts"
    by (simp add: runBenchmarkCase_eq advance_def)
  show ?thesis
    using a b c d by blast
qed

text \<open>
  Two warmup and three timed iterations of an operation that returns seven rows: three
  records, numbered 1, 2, 3, each with seven rows and no error, after five invocations.
\<close>

theorem runBenchmarkCase_records_witness:
  "map_sum id (map iteration) (fst (runBenchmarkCase steady_case unit_clocks example_options idle_world))
     = Inr [1, 2, 3] \<and>
   map_sum id (map rowsReturned) (fst (runBenchmarkCase steady_case unit_clocks example_options idle_world))
     = Inr [7, 7, 7] \<and>
   map_sum id (map error) (fst (runBenchmarkCase steady_case unit_clocks example_options idle_world))
     = Inr [None, None, None] \<and>
   calls (snd (runBenchmarkCase steady_case unit_clocks example_options idle_world)) = 5"
  using runBenchmarkCase_records[of steady_case unit_clocks example_options idle_world]
  by (simp add: runBenchmarkCase_eq iteration_record_def advance_def steady_case_def
      example_options_def idle_world_def upt_conv_Cons try_block_def)

text \<open>
  C4. A record of \<open>runBenchmarkCase\<close> whose error is set should have \<open>rowsReturned = 0\<close>,
  and the records of an operation that fails on every timed iteration should carry a
  non-empty error. The code breaks both. When the operation throws \<open>new Error()\<close>, whose
  message is the empty string, every record carries the empty string as its error (and
  no rows); the runner's summary, which tells failed records by a truthy error, then
  counts them as successes. When the operation returns seven rows and reading the query
  plan of its result throws, every record carries the error and \<open>rowsReturned = 7\<close>.
\<close>

theorem runBenchmarkCase_error_invariant_violated:
  "map_sum id (map error) (fst (runBenchmarkCase silent_case unit_clocks example_options idle_world))
     = Inr [Some [], Some [], Some []] \<and>
   map_sum id (map rowsReturned) (fst (runBenchmarkCase silent_case unit_clocks example_options idle_world))
     = Inr [0, 0, 0] \<and>
   map_sum id (map error) (fst (runBenchmarkCase plan_throwing_case unit_clocks example_options idle_world))
     = Inr [Some ''plan unavailable'', Some ''plan unavailable'', Some ''plan unavailable''] \<and>
   map_sum id (map rowsReturned)
       (fst (runBenchmarkCase plan_throwing_case unit_clocks example_options idle_world))
     = Inr [7, 7, 7]"
  by (simp add: runBenchmarkCase_eq iteration_record_def advance_def silent_case_def
      plan_throwing_case_def example_options_def idle_world_def upt_conv_Cons error_text_def
      try_block_def)

section \<open>Properties of the workload drivers\<close>

lemma settle_all_ok:
  "(\<And>i. i \<in> set order \<Longrightarrow> task i = Inr (rows i)) \<Longrightarrow>
   settle_all task order acc = Inr (acc + sum_list (map rows order))"
  by (induction order arbitrary: acc) (simp_all add: add.assoc)

lemma settle_all_fails:
  "i \<in> set order \<Longrightarrow> isl (task i) \<Longrightarrow> isl (settle_all task order acc)"
proof (induction order arbitrary: acc)
  case Nil
  then show ?case by simp
next
  case (Cons j order)
  show ?case
  proof (cases "task j")
    case (Inl e)
    then show ?thesis by simp
  next
    case (Inr rows)
    then have "j \<noteq> i" using Cons.prems(2) by auto
    then have "i \<in> set order" using Cons.prems(1) by simp
    then show ?thesis using Cons.IH Cons.prems(2) Inr by simp
  qed
qed

lemma settle_all_error:
  "settle_all task order acc = Inl e \<Longrightarrow> \<exists>i \<in> set order. task i = Inl e"
proof (induction order arbitrary: acc)
  case Nil
  then show ?case by simp
next
  case (Cons j order)
  show ?case
  proof (cases "task j")
    case (Inl e')
    then show ?thesis using Cons.prems by simp
  next
    case (Inr rows)
    then have "settle_all task order (acc + rows) = Inl e" using Cons.prems by simp
    then show ?thesis using Cons.IH by auto
  qed
qed

lemma filter_all_slots:
  "set order = {0..<n} \<Longrightarrow> filter (\<lambda>i. i < n) order = order"
  by (rule filter_True) simp

lemma settle_all_sum:
  assumes "distinct order" "set order = {0..<n}" "\<And>i. i < n \<Longrightarrow> task i = Inr (rows i)"
  shows "settle_all task order 0 = Inr (\<Sum>i<n. rows i)"
proof -
  have a: "\<And>i. i \<in> set order \<Longrightarrow> task i = Inr (rows i)"
    using assms(2,3) by simp
  have b: "settle_all task order 0 = Inr (0 + sum_list (map rows order))"
    by (rule settle_all_ok[OF a])
  have c: "sum_list (map rows order) = sum rows (set order)"
    using assms(1) by (rule sum_list_distinct_conv_sum_set)
  have d: "set order = {..<n}"
    using assms(2) by (simp add: atLeast0LessThan)
  show ?thesis unfolding b c d by simp
qed

lemma settle_all_rejects:
  assumes "set order = {0..<n}" "i < n" "isl (task i)"
  shows "\<exists>e j. j < n \<and> task j = Inl e \<and> settle_all task order 0 = Inl e"
proof -
  have "i \<in> set order" using assms(1,2) by simp
  then have "isl (settle_all task order 0)" using assms(3) by (rule settle_all_fails)
  then obtain e where e: "settle_all task order 0 = Inl e" by (auto simp: isl_def)
  then obtain j where "j \<in> set order" "task j = Inl e" using settle_all_error by blast
  then show ?thesis using e assms(1) by auto
qed

lemma mixed_ops_zero:
  assumes "\<And>i. i < totalOps \<Longrightarrow> 0 \<le> random i"
  shows "mixed_ops random totalOps 0 = replicate totalOps Read"
proof -
  have "map (\<lambda>i. if random i < 0 then Write else Read) [0..<totalOps] = map (\<lambda>i. Read) [0..<totalOps]"
    using assms by (intro map_cong[OF refl]) (auto simp: not_less)
  then show ?thesis by (simp add: mixed_ops_def map_replicate_const)
qed

lemma mixed_ops_one:
  assumes "\<And>i. i < totalOps \<Longrightarrow> random i < 1"
  shows "mixed_ops random totalOps 1 = replicate totalOps Write"
proof -
  have "map (\<lambda>i. if random i < 1 then Write else Read) [0..<totalOps] = map (\<lambda>i. Write) [0..<totalOps]"
    using assms by (intro map_cong[OF refl]) auto
  then show ?thesis by (simp add: mixed_ops_def map_replicate_const)
qed

lemma three_slots: "set [2, 0, 1] = {0..<3::nat}"
  by auto

text \<open>
  C2, as the code has it. Let the tasks settle in any order. If some dispatched
  operation fails, the driver call itself fails, with the error of one of the failed
  operations, and returns no count. The driver returns a count only when every
  operation succeeds, and the count is then the sum over all operations. This holds
  for the uniform driver \<open>runConcurrentPostgis\<close> and for \<open>mixedWorkload\<close>.
\<close>

theorem workload_driver_outcome:
  assumes "distinct order" "set order = {0..<n}"
  shows
    "((\<exists>i<n. isl (query i)) \<longrightarrow>
        (\<exists>e j. j < n \<and> query j = Inl e \<and> runConcurrentPostgis query order n c = Inl e)) \<and>
     ((\<forall>i<n. query i = Inr (res i)) \<longrightarrow>
        runConcurrentPostgis query order n c
          = Inr (\<Sum>i<n. case rowCount (res i) of Some k \<Rightarrow> k | None \<Rightarrow> 0)) \<and>
     ((\<exists>i<n. isl (mixed_task ctx db (mixed_ops random n ratio ! i) i)) \<longrightarrow>
        (\<exists>e j. j < n \<and> mixed_task ctx db (mixed_ops random n ratio ! j) j = Inl e \<and>
               mixedWorkload ctx db random order n ratio c = Inl e)) \<and>
     ((\<forall>i<n. mixed_task ctx db (mixed_ops random n ratio ! i) i = Inr (rows i)) \<longrightarrow>
        mixedWorkload ctx db random order n ratio c = Inr (\<Sum>i<n. rows i))"
proof (intro conjI impI)
  assume "\<exists>i<n. isl (query i)"
  then obtain i where i: "i < n" "isl (query i)" by blast
  then have "isl (concurrent_task query i)"
    by (cases "query i") (simp_all add: concurrent_task_def)
  from settle_all_rejects[where task = "concurrent_task query", OF assms(2) i(1) this]
  obtain e j where j: "j < n" "concurrent_task query j = Inl e"
    "settle_all (concurrent_task query) order 0 = Inl e" by blast
  have "query j = Inl e"
    using j(2) by (cases "query j") (simp_all add: concurrent_task_def)
  then show "\<exists>e j. j < n \<and> query j = Inl e \<and> runConcurrentPostgis query order n c = Inl e"
    using j(1,3) by (auto simp: runConcurrentPostgis_def filter_all_slots[OF assms(2)])
next
  assume ok: "\<forall>i<n. query i = Inr (res i)"
  have "settle_all (concurrent_task query) order 0
          = Inr (\<Sum>i<n. case rowCount (res i) of Some k \<Rightarrow> k | None \<Rightarrow> 0)"
    using ok by (intro settle_all_sum[OF assms]) (simp add: concurrent_task_def)
  then show "runConcurrentPostgis query order n c
          = Inr (\<Sum>i<n. case rowCount (res i) of Some k \<Rightarrow> k | None \<Rightarrow> 0)"
    by (simp add: runConcurrentPostgis_def filter_all_slots[OF assms(2)])
next
  assume "\<exists>i<n. isl (mixed_task ctx db (mixed_ops random n ratio ! i) i)"
  then obtain i where i: "i < n" "isl (mixed_task ctx db (mixed_ops random n ratio ! i) i)" by blast
  from settle_all_rejects[where task = "\<lambda>i. mixed_task ctx db (mixed_ops random n ratio ! i) i",
      OF assms(2) i(1) i(2)]
  obtain e j where "j < n" "mixed_task ctx db (mixed_ops random n ratio ! j) j = Inl e"
    "settle_all (\<lambda>i. mixed_task ctx db (mixed_ops random n ratio ! i) i) order 0 = Inl e" by blast
  then show "\<exists>e j. j < n \<and> mixed_task ctx db (mixed_ops random n ratio ! j) j = Inl e \<and>
               mixedWorkload ctx db random order n ratio c = Inl e"
    by (auto simp: mixedWorkload_def Let_def filter_all_slots[OF assms(2)])
next
  assume ok: "\<forall>i<n. mixed_task ctx db (mixed_ops random n ratio ! i) i = Inr (rows i)"
  have "settle_all (\<lambda>i. mixed_task ctx db (mixed_ops random n ratio ! i) i) order 0 = Inr (\<Sum>i<n. rows i)"
    using ok by (intro settle_all_sum[OF assms]) simp
  then show "mixedWorkload ctx db random order n ratio c = Inr (\<Sum>i<n. rows i)"
    by (simp add: mixedWorkload_def Let_def filter_all_slots[OF assms(2)])
qed

text \<open>
  Three slots that settle in the order 2, 0, 1. When all three queries return three
  rows, both drivers return 9; when the query of slot 1 throws, both drivers fail with
  its error.
\<close>

theorem workload_driver_outcome_witness:
  "distinct [2, 0, 1 :: nat] \<and> set [2, 0, 1] = {0..<3::nat} \<and>
   runConcurrentPostgis all_ok_query [2, 0, 1] 3 10 = Inr 9 \<and>
   mixedWorkload (example_pools all_ok_query) Postgis (\<lambda>i. 1 / 2) [2, 0, 1] 3 (1 / 5) 10 = Inr 9 \<and>
   runConcurrentPostgis one_failure_query [2, 0, 1] 3 10
     = Inl (Thrown (Some ''deadlock detected'') ''error: deadlock detected'') \<and>
   mixedWorkload (example_pools one_failure_query) Postgis (\<lambda>i. 1 / 2) [2, 0, 1] 3 (1 / 5) 10
     = Inl (Thrown (Some ''deadlock detected'') ''error: deadlock detected'')"
proof -
  have d: "distinct [2, 0, 1 :: nat]"
    by simp
  note t = workload_driver_outcome[OF d three_slots,
      where query = all_ok_query and res = "\<lambda>i. \<lparr> rowCount = Some 3 \<rparr>" and c = 10
        and ctx = "example_pools all_ok_query" and db = Postgis and random = "\<lambda>i. 1 / 2"
        and ratio = "1 / 5" and rows = "\<lambda>i. 3"]
  have r1: "runConcurrentPostgis all_ok_query [2, 0, 1] 3 10 = Inr 9"
    using conjunct1[OF conjunct2[OF t]] by (simp add: all_ok_query_def)
  have r2: "mixedWorkload (example_pools all_ok_query) Postgis (\<lambda>i. 1 / 2) [2, 0, 1] 3 (1 / 5) 10 = Inr 9"
    using conjunct2[OF conjunct2[OF conjunct2[OF t]]]
    by (simp add: mixed_task_def example_pools_def all_ok_query_def)
  have r3: "runConcurrentPostgis one_failure_query [2, 0, 1] 3 10
     = Inl (Thrown (Some ''deadlock detected'') ''error: deadlock detected'')"
    by (simp add: runConcurrentPostgis_def concurrent_task_def one_failure_query_def)
  have r4: "mixedWorkload (example_pools one_failure_query) Postgis (\<lambda>i. 1 / 2) [2, 0, 1] 3 (1 / 5) 10
     = Inl (Thrown (Some ''deadlock detected'') ''error: deadlock detected'')"
    by (simp add: mixedWorkload_def mixed_task_def mixed_ops_def example_pools_def
        one_failure_query_def upt_conv_Cons)
  show ?thesis
    by (intro conjI d three_slots r1 r2 r3 r4)
qed

text \<open>
  C2 as stated lets the driver return the sum over the operations that succeeded when
  one operation fails. With three queries of three rows each, of which the second
  throws, neither driver returns 6: both fail with the error of the failed query.
\<close>

theorem workload_driver_partial_failure_counterexample:
  "one_failure_query 0 = Inr \<lparr> rowCount = Some 3 \<rparr> \<and>
   one_failure_query 1 = Inl (Thrown (Some ''deadlock detected'') ''error: deadlock detected'') \<and>
   one_failure_query 2 = Inr \<lparr> rowCount = Some 3 \<rparr> \<and>
   runConcurrentPostgis one_failure_query [0, 1, 2] 3 10
     = Inl (Thrown (Some ''deadlock detected'') ''error: deadlock detected'') \<and>
   mixedWorkload (example_pools one_failure_query) Postgis (\<lambda>i. 1 / 2) [0, 1, 2] 3 (1 / 5) 10
     = Inl (Thrown (Some ''deadlock detected'') ''error: deadlock detected'')"
  by (simp add: runConcurrentPostgis_def mixedWorkload_def concurrent_task_def
      mixed_task_def mixed_ops_def example_pools_def one_failure_query_def upt_conv_Cons)

text \<open>
  C8. Whatever values in the interval from 0 (inclusive) to 1 (exclusive) the random
  draws of the slots take, a write ratio of 0 makes every one of the \<open>totalOps\<close> slots a
  read, and a write ratio of 1 makes every slot a write.
\<close>

theorem mixed_ops_boundary:
  assumes "\<forall>i<totalOps. 0 \<le> random i \<and> random i < 1"
  shows "mixed_ops random totalOps 0 = replicate totalOps Read \<and>
         mixed_ops random totalOps 1 = replicate totalOps Write"
  using assms mixed_ops_zero[of totalOps random] mixed_ops_one[of totalOps random] by simp

theorem mixed_ops_boundary_witness:
  "(0::real) \<le> 1 / 2 \<and> (1 / 2 :: real) < 1 \<and>
   mixed_ops (\<lambda>i. 1 / 2) 3 0 = [Read, Read, Read] \<and>
   mixed_ops (\<lambda>i. 1 / 2) 3 1 = [Write, Write, Write]"
  using mixed_ops_boundary[of 3 "\<lambda>i. 1 / 2"]
  by (simp add: numeral_3_eq_3)

section \<open>Properties of the resource sampler\<close>

lemma poll_each_containers:
  "map container (resource_snapshots (poll_each docker rid k cs d)) =
     map container (resource_snapshots d) @ filter (reachable docker k) cs"
  by (induction cs arbitrary: d)
     (auto simp: reachable_def insertResourceSnapshot_def split: docker_reply.splits)

lemma stop_stop: "stop (stop s) = stop s"
  by (cases "timer s") (simp_all add: stop_def)

lemma stop_idle: "timer s = None \<Longrightarrow> stop s = s"
  by (simp add: stop_def)

lemma start_stop_created:
  "stop (start docker rid cs (createDockerStatsCollector d)) =
     \<lparr> timer = None, armed = {}, next_handle = 1, polls = 1, store = poll_each docker rid 0 cs d \<rparr>"
  by (simp add: stop_def start_def poll_def createDockerStatsCollector_def Let_def)

lemma start_start_stop_created:
  "stop (start docker rid cs (start docker rid cs (createDockerStatsCollector d))) =
     \<lparr> timer = None, armed = {0}, next_handle = 2, polls = 2,
       store = poll_each docker rid 1 cs (poll_each docker rid 0 cs d) \<rparr>"
  by (simp add: stop_def start_def poll_def createDockerStatsCollector_def Let_def)

text \<open>
  C6, as the code has it. \<open>stop\<close> is idempotent, and \<open>stop\<close> on a collector whose timer
  is not set (never started, or already stopped) changes nothing. Every \<open>start\<close> performs
  one immediate poll. On a newly created collector, \<open>start\<close> followed by \<open>stop\<close> leaves
  no timer armed, so that no interval coming due polls again, and it has written
  exactly one snapshot for each reachable container of the list, in order.
\<close>

theorem sampler_start_stop:
  "stop (stop s) = stop s \<and>
   (timer s = None \<longrightarrow> stop s = s) \<and>
   stop (createDockerStatsCollector d) = createDockerStatsCollector d \<and>
   polls (start docker rid cs s) = polls s + 1 \<and>
   (let s1 = stop (start docker rid cs (createDockerStatsCollector d))
    in timer s1 = None \<and> armed s1 = {} \<and> polls s1 = 1 \<and>
       tick docker rid cs h s1 = s1 \<and>
       map container (resource_snapshots (store s1)) =
         map container (resource_snapshots d) @ filter (reachable docker 0) cs)"
proof -
  have a: "stop (createDockerStatsCollector d) = createDockerStatsCollector d"
    by (simp add: stop_def createDockerStatsCollector_def)
  have b: "polls (start docker rid cs s) = polls s + 1"
    by (simp add: start_def poll_def Let_def)
  have c: "tick docker rid cs h (stop (start docker rid cs (createDockerStatsCollector d)))
             = stop (start docker rid cs (createDockerStatsCollector d))"
    by (simp add: start_stop_created tick_def)
  show ?thesis
    using stop_stop[of s] stop_idle[of s] a b c
    by (simp add: Let_def start_stop_created poll_each_containers)
qed

text \<open>
  With the containers \<open>geobench-postgis\<close> (reachable) and \<open>geobench-mssql\<close> (not
  reachable), \<open>start\<close> then \<open>stop\<close> on a new collector over an empty database stores
  one snapshot, of \<open>geobench-postgis\<close>, and leaves no timer armed.
\<close>

theorem sampler_start_stop_witness:
  "timer (createDockerStatsCollector empty_db) = None \<and>
   stop (createDockerStatsCollector empty_db) = createDockerStatsCollector empty_db \<and>
   armed (stop (start example_docker ''run-1'' [''geobench-postgis'', ''geobench-mssql'']
            (createDockerStatsCollector empty_db))) = {} \<and>
   map container (resource_snapshots (store
     (stop (start example_docker ''run-1'' [''geobench-postgis'', ''geobench-mssql'']
        (createDockerStatsCollector empty_db))))) = [''geobench-postgis'']"
  using sampler_start_stop[of "createDockerStatsCollector empty_db" empty_db example_docker
      "''run-1''" "[''geobench-postgis'', ''geobench-mssql'']" 0]
  by (simp add: Let_def reachable_def example_docker_def empty_db_def createDockerStatsCollector_def)

text \<open>
  C6 as stated makes \<open>start\<close> idempotent: after any sequence of \<open>start\<close> calls one \<open>stop\<close>
  leaves no timer armed. After two \<open>start\<close> calls on a new collector, \<open>stop\<close> clears the
  second timer only: the first, with handle 0, is still armed, and when it comes due a
  third poll is made.
\<close>

theorem sampler_double_start_counterexample:
  "armed (stop (start example_docker ''run-1'' [''geobench-postgis'']
            (start example_docker ''run-1'' [''geobench-postgis'']
               (createDockerStatsCollector empty_db)))) = {0} \<and>
   polls (stop (start example_docker ''run-1'' [''geobench-postgis'']
            (start example_docker ''run-1'' [''geobench-postgis'']
               (createDockerStatsCollector empty_db)))) = 2 \<and>
   polls (tick example_docker ''run-1'' [''geobench-postgis''] 0
            (stop (start example_docker ''run-1'' [''geobench-postgis'']
               (start example_docker ''run-1'' [''geobench-postgis'']
                  (createDockerStatsCollector empty_db))))) = 3"
  by (simp add: start_start_stop_created tick_def poll_def)

end
